theory Spec2Isabelle
  imports Main
begin

section \<open>JavaScript strings and arrays\<close>

text \<open>
  A JavaScript string is modelled as a \<open>string\<close>, a list of 8-bit characters: the
  UTF-8 encoding of its text, so a character beyond ASCII is two to four bytes.  The
  functions below are the string and array methods that \<^verbatim>\<open>review_pr.js\<close> calls,
  restricted to how it calls them: every separator it splits on is a single ASCII
  character.
\<close>

definition NL :: char where
  "NL = CHR 0x0A"

text \<open>\<^verbatim>\<open>s.split(sep)\<close> for a one-character separator; never the empty array.\<close>

fun js_split :: "char \<Rightarrow> string \<Rightarrow> string list" where
  "js_split sep [] = [[]]"
| "js_split sep (c # cs) =
     (if c = sep then [] # js_split sep cs
      else (case js_split sep cs of
              [] \<Rightarrow> [[c]]
            | l # ls \<Rightarrow> (c # l) # ls))"

text \<open>\<^verbatim>\<open>xs.join(sep)\<close>.\<close>

fun js_join :: "string \<Rightarrow> string list \<Rightarrow> string" where
  "js_join sep [] = []"
| "js_join sep [l] = l"
| "js_join sep (l # m # ls) = l @ sep @ js_join sep (m # ls)"

text \<open>\<^verbatim>\<open>s.startsWith(p)\<close>.\<close>

definition startsWith :: "string \<Rightarrow> string \<Rightarrow> bool" where
  "startsWith s p = (take (length p) s = p)"

text \<open>\<^verbatim>\<open>s.includes(p)\<close>: \<open>p\<close> occurs in \<open>s\<close> as a contiguous substring.\<close>

fun js_includes :: "string \<Rightarrow> string \<Rightarrow> bool" where
  "js_includes [] p = (p = [])"
| "js_includes (c # cs) p = (if startsWith (c # cs) p then True else js_includes cs p)"

text \<open>
  \<^verbatim>\<open>s.trim()\<close> strips, from both ends, the characters of ECMAScript's WhiteSpace and
  LineTerminator productions.  In UTF-8 they are: the single bytes tab, line feed,
  vertical tab, form feed, carriage return and space; the two bytes of U+00A0; and the
  three bytes of U+1680, U+2000 to U+200A, U+2028, U+2029, U+202F, U+205F, U+3000 and
  U+FEFF.  \<open>trimStart\<close> strips them from the front; \<open>trimEnd_rev\<close> strips them from
  the end of a string given back to front.
\<close>

definition white1 :: "char \<Rightarrow> bool" where
  "white1 a = (a \<in> set [CHR 0x09, CHR 0x0A, CHR 0x0B, CHR 0x0C, CHR 0x0D, CHR 0x20])"

definition white2 :: "char \<Rightarrow> char \<Rightarrow> bool" where
  "white2 a b = (a = CHR 0xC2 \<and> b = CHR 0xA0)"

definition white3 :: "char \<Rightarrow> char \<Rightarrow> char \<Rightarrow> bool" where
  "white3 a b c =
     ((a = CHR 0xE1 \<and> b = CHR 0x9A \<and> c = CHR 0x80)
      \<or> (a = CHR 0xE2 \<and> b = CHR 0x80
          \<and> c \<in> set [CHR 0x80, CHR 0x81, CHR 0x82, CHR 0x83, CHR 0x84, CHR 0x85, CHR 0x86,
                       CHR 0x87, CHR 0x88, CHR 0x89, CHR 0x8A, CHR 0xA8, CHR 0xA9, CHR 0xAF])
      \<or> (a = CHR 0xE2 \<and> b = CHR 0x81 \<and> c = CHR 0x9F)
      \<or> (a = CHR 0xE3 \<and> b = CHR 0x80 \<and> c = CHR 0x80)
      \<or> (a = CHR 0xEF \<and> b = CHR 0xBB \<and> c = CHR 0xBF))"

fun trimStart :: "string \<Rightarrow> string" where
  "trimStart [] = []"
| "trimStart [a] = (if white1 a then [] else [a])"
| "trimStart [a, b] = (if white1 a then trimStart [b] else if white2 a b then [] else [a, b])"
| "trimStart (a # b # c # s) =
     (if white1 a then trimStart (b # c # s)
      else if white2 a b then trimStart (c # s)
      else if white3 a b c then trimStart s
      else a # b # c # s)"

fun trimEnd_rev :: "string \<Rightarrow> string" where
  "trimEnd_rev [] = []"
| "trimEnd_rev [a] = (if white1 a then [] else [a])"
| "trimEnd_rev [b, a] = (if white1 b then trimEnd_rev [a] else if white2 a b then [] else [b, a])"
| "trimEnd_rev (c # b # a # s) =
     (if white1 c then trimEnd_rev (b # a # s)
      else if white2 b c then trimEnd_rev (a # s)
      else if white3 a b c then trimEnd_rev s
      else c # b # a # s)"

definition js_trim :: "string \<Rightarrow> string" where
  "js_trim s = rev (trimEnd_rev (rev (trimStart s)))"

text \<open>
  \<^verbatim>\<open>s.toLowerCase()\<close> is the runtime's Unicode lower-casing; it is a parameter \<open>lc\<close>
  of the functions that call it (the field \<open>toLowerCase\<close> of the configuration below),
  and nothing is assumed of it.  \<open>asciiLowerCase\<close> is what it does on a string of ASCII
  characters: the letters A to Z become a to z; the examples, whose names are ASCII, run
  with it.
\<close>

definition lowerChar :: "char \<Rightarrow> char" where
  "lowerChar c =
     (case map_of (zip ''ABCDEFGHIJKLMNOPQRSTUVWXYZ'' ''abcdefghijklmnopqrstuvwxyz'') c of
        None \<Rightarrow> c
      | Some l \<Rightarrow> l)"

definition asciiLowerCase :: "string \<Rightarrow> string" where
  "asciiLowerCase s = map lowerChar s"

text \<open>\<^verbatim>\<open>xs.slice(0, k)\<close>: a negative \<open>k\<close> counts from the end of the array.\<close>

definition js_slice0 :: "'a list \<Rightarrow> int \<Rightarrow> 'a list" where
  "js_slice0 xs k =
     (if k < 0 then take (nat (int (length xs) + k)) xs else take (nat k) xs)"

text \<open>\<^verbatim>\<open>xs.pop()\<close> of a non-empty array, as the value it returns.\<close>

definition js_pop :: "string list \<Rightarrow> string" where
  "js_pop xs = (case rev xs of [] \<Rightarrow> [] | x # _ \<Rightarrow> x)"

text \<open>The decimal rendering of an integer in a template literal.\<close>

definition digit_char :: "nat \<Rightarrow> char" where
  "digit_char d = ''0123456789'' ! d"

fun string_of_nat :: "nat \<Rightarrow> string" where
  "string_of_nat n =
     (if n < 10 then [digit_char n] else string_of_nat (n div 10) @ [digit_char (n mod 10)])"

declare string_of_nat.simps [simp del]

definition string_of_int :: "int \<Rightarrow> string" where
  "string_of_int i = (if i < 0 then CHR ''-'' # string_of_nat (nat (- i)) else string_of_nat (nat i))"

section \<open>The Diff Collector\<close>

text \<open>
  An entry of the pull request's file list, and the object \<open>listChangedFiles\<close>
  pushes: the same fields, the patch being absent (\<open>None\<close>) or a string in the
  former and a string in the latter.
\<close>

record 'p pr_file =
  filename :: string
  status :: string
  additions :: int
  deletions :: int
  patch :: 'p

type_synonym ChangedFile = "string option pr_file"
type_synonym CollectedFile = "string pr_file"

definition isBinaryOrLarge :: "ChangedFile \<Rightarrow> bool" where
  "isBinaryOrLarge f = (status f = ''removed'' \<or> patch f = None)"

text \<open>
  \<open>riskySet\<close> is built from the comma-separated \<open>RISKY_EXTS\<close>; it is a parameter
  of the functions that read it, as is the lower-casing \<open>lc\<close>.
\<close>

definition riskySet_of :: "(string \<Rightarrow> string) \<Rightarrow> string \<Rightarrow> string list" where
  "riskySet_of lc RISKY_EXTS = map (\<lambda>s. lc (js_trim s)) (js_split CHR '','' RISKY_EXTS)"

definition hasRiskyExt :: "(string \<Rightarrow> string) \<Rightarrow> string list \<Rightarrow> string \<Rightarrow> bool" where
  "hasRiskyExt lc riskySet fname =
     (let ext = js_pop (js_split CHR ''.'' (lc fname)) in ext \<in> set riskySet)"

text \<open>
  \<open>lines[0]\<close> is \<open>hd lines\<close>: \<open>split\<close> never returns an empty array.
\<close>

definition trimPatchLines :: "string \<Rightarrow> int \<Rightarrow> string" where
  "trimPatchLines p limit =
     (let lines = js_split NL p in
      if int (length lines) \<le> limit then p
      else
        let header = (if startsWith (hd lines) ''@@'' then hd lines else '''')
        in js_join [NL] (header # js_slice0 lines limit))"

text \<open>The filter of \<open>listChangedFiles\<close>: hunk headers, added and removed lines.\<close>

definition keptLine :: "string \<Rightarrow> bool" where
  "keptLine l = (startsWith l ''@@'' \<or> startsWith l ''+'' \<or> startsWith l ''-'')"

definition reducePatch :: "string option \<Rightarrow> string" where
  "reducePatch p =
     js_join [NL] (filter keptLine (js_split NL (case p of None \<Rightarrow> '''' | Some s \<Rightarrow> s)))"

record collected =
  files :: "CollectedFile list"
  totalLines :: int

text \<open>
  What \<open>listChangedFiles\<close> reads from its environment: \<open>MAX_FILES\<close>, \<open>MAX_LINES\<close>,
  \<open>LINE_TRIM_PER_FILE\<close>, the allow-list, and the runtime's \<^verbatim>\<open>toLowerCase\<close>.
\<close>

record caps =
  capFiles :: int
  capLines :: int
  perFileCap :: int
  riskySet :: "string list"
  toLowerCase :: "string \<Rightarrow> string"

text \<open>
  One iteration of the inner loop \<^verbatim>\<open>for (const f of data)\<close>: it ends the loop
  (\<^verbatim>\<open>break\<close>) or goes on to the next file (\<^verbatim>\<open>continue\<close>, or the end of
  the body), with the accumulated \<open>files\<close> and \<open>totalLines\<close>.
\<close>

datatype step = Break collected | Continue collected

definition push_file :: "caps \<Rightarrow> ChangedFile \<Rightarrow> string \<Rightarrow> collected \<Rightarrow> step" where
  "push_file k f p acc =
     (let acc' = \<lparr> files = files acc @
                     [\<lparr> filename = filename f, status = status f,
                        additions = additions f, deletions = deletions f, patch = p \<rparr>],
                   totalLines = totalLines acc + int (length (js_split NL p)) \<rparr>
      in if int (length (files acc')) \<ge> capFiles k \<or> totalLines acc' \<ge> capLines k then Break acc'
         else Continue acc')"

definition file_step :: "caps \<Rightarrow> ChangedFile \<Rightarrow> collected \<Rightarrow> step" where
  "file_step k f acc =
     (if int (length (files acc)) \<ge> capFiles k then Break acc
      else if isBinaryOrLarge f \<or> \<not> hasRiskyExt (toLowerCase k) (riskySet k) (filename f) then Continue acc
      else
        let p0 = reducePatch (patch f) in
        if js_trim p0 = [] then Continue acc
        else
          let p1 = trimPatchLines p0 (perFileCap k);
              patchLines = int (length (js_split NL p1))
          in
            if totalLines acc + patchLines > capLines k then
              (let remaining = max 0 (capLines k - totalLines acc) in
               if remaining = 0 then Break acc
               else push_file k f (trimPatchLines p1 remaining) acc)
            else push_file k f p1 acc)"

fun page_loop :: "caps \<Rightarrow> ChangedFile list \<Rightarrow> collected \<Rightarrow> collected" where
  "page_loop k [] acc = acc"
| "page_loop k (f # fs) acc =
     (case file_step k f acc of
        Break acc' \<Rightarrow> acc'
      | Continue acc' \<Rightarrow> page_loop k fs acc')"



section \<open>The Finding Aggregator\<close>

text \<open>
  A field of a finding of the report: absent, a string or a number.  \<open>truthy\<close> is
  JavaScript's truthiness, \<open>js_or\<close> its \<^verbatim>\<open>||\<close>, \<open>render\<close> the text of a value in
  a template literal.
\<close>

datatype jsval = JUndefined | JStr string | JNum int

fun truthy :: "jsval \<Rightarrow> bool" where
  "truthy JUndefined = False"
| "truthy (JStr s) = (s \<noteq> [])"
| "truthy (JNum n) = (n \<noteq> 0)"

definition js_or :: "jsval \<Rightarrow> jsval \<Rightarrow> jsval" where
  "js_or a b = (if truthy a then a else b)"

fun render :: "jsval \<Rightarrow> string" where
  "render JUndefined = ''undefined''"
| "render (JStr s) = s"
| "render (JNum n) = string_of_int n"

text \<open>A finding, with the aliases of its three fields that the report may use.\<close>

record finding =
  fld_File :: jsval
  fld_file :: jsval
  fld_Path :: jsval
  fld_RuleID :: jsval
  fld_ruleID :: jsval
  fld_Rule :: jsval
  fld_StartLine :: jsval
  fld_startLine :: jsval
  fld_Line :: jsval

definition finding_file :: "finding \<Rightarrow> string" where
  "finding_file f = render (js_or (fld_File f) (js_or (fld_file f) (js_or (fld_Path f) (JStr ''unknown''))))"

definition finding_rule :: "finding \<Rightarrow> string" where
  "finding_rule f = render (js_or (fld_RuleID f) (js_or (fld_ruleID f) (js_or (fld_Rule f) (JStr ''rule''))))"

definition finding_line :: "finding \<Rightarrow> string" where
  "finding_line f =
     render (js_or (fld_StartLine f) (js_or (fld_startLine f) (js_or (fld_Line f) (JStr ''?''))))"

text \<open>The line of one finding: \<^verbatim>\<open>- `file` line N: **rule**\<close>.\<close>

definition finding_entry :: "finding \<Rightarrow> string" where
  "finding_entry f =
     ''- `'' @ finding_file f @ ''` line '' @ finding_line f @ '': **'' @ finding_rule f @ ''**''"

text \<open>The key emoji (U+1F511) and the ellipsis (U+2026) of the summary, in UTF-8.\<close>

definition gitleaks_heading :: string where
  "gitleaks_heading = ''### '' @ [CHR 0xF0, CHR 0x9F, CHR 0x94, CHR 0x91] @ '' GitLeaks Findings''"

definition ellipsis :: string where
  "ellipsis = [CHR 0xE2, CHR 0x80, CHR 0xA6]"

definition summarizeGitLeaks :: "finding list \<Rightarrow> int \<Rightarrow> string" where
  "summarizeGitLeaks findings limit =
     (if length findings = 0 then []
      else
        let lines = map finding_entry (js_slice0 findings limit);
            more = (if int (length findings) > limit
                    then [NL] @ ellipsis @ ''and '' @ string_of_int (int (length findings) - limit)
                         @ '' more.''
                    else [])
        in gitleaks_heading @ [NL] @ js_join [NL] lines @ more)"

text \<open>
  The report file as \<open>loadGitLeaksFindings\<close> meets it: missing, unreadable or not
  JSON (the \<^verbatim>\<open>catch\<close>), an array, an object with an array under \<open>findings\<close>, or
  any other JSON value.
\<close>

datatype report = NoReport | Unparsable | TopLevel "finding list" | UnderFindings "finding list"
  | OtherJson

fun loadGitLeaksFindings :: "report \<Rightarrow> finding list" where
  "loadGitLeaksFindings NoReport = []"
| "loadGitLeaksFindings Unparsable = []"
| "loadGitLeaksFindings (TopLevel fs) = fs"
| "loadGitLeaksFindings (UnderFindings fs) = fs"
| "loadGitLeaksFindings OtherJson = []"

section \<open>The run and its external calls\<close>

text \<open>
  A thrown JavaScript error: its \<open>name\<close> and its \<open>message\<close>.  \<open>String_of\<close> is
  \<^verbatim>\<open>String(err)\<close>, and \<open>Error m\<close> is \<^verbatim>\<open>new Error(m)\<close>.
\<close>

datatype js_error = JsError string string

fun String_of :: "js_error \<Rightarrow> string" where
  "String_of (JsError n m) = (if n = [] then m else if m = [] then n else n @ '': '' @ m)"

definition Error :: "string \<Rightarrow> js_error" where
  "Error m = JsError ''Error'' m"

text \<open>
  The calls that leave the process: a page of the file list, the chat-completion
  request with its two messages, and the listing, update and creation of comments.
\<close>

datatype call =
    ListFiles nat nat
  | ChatCompletion string string
  | ListComments nat
  | UpdateComment nat string
  | CreateComment nat string

record PRComment =
  comment_id :: nat
  body :: "string option"

record ChatMessage =
  content :: "string option"

record ChatChoice =
  message :: "ChatMessage option"

record ChatData =
  choices :: "ChatChoice list option"

text \<open>
  The response of \<^verbatim>\<open>fetch\<close>: its status, what \<^verbatim>\<open>resp.text()\<close> gives and what
  \<^verbatim>\<open>resp.json()\<close> gives (an error when the body is not JSON).  \<open>resp_ok\<close> is
  \<^verbatim>\<open>resp.ok\<close>.
\<close>

record HttpResponse =
  resp_status :: nat
  resp_text :: string
  resp_json :: "js_error + ChatData"

definition resp_ok :: "HttpResponse \<Rightarrow> bool" where
  "resp_ok r = (200 \<le> resp_status r \<and> resp_status r \<le> 299)"

text \<open>
  The world the run acts on.  \<open>now\<close> is \<^verbatim>\<open>Date.now()\<close>; the \<open>n\<close>-th external call
  of the run takes \<open>latency n\<close> and fails with \<open>fault n\<close> when that is not \<open>None\<close>.
  \<open>file_pages\<close> are the pages the file-list endpoint holds (an empty page after the
  last), \<open>completion\<close> the response of the completion endpoint, \<open>comments\<close> the
  comments of the pull request in the order the platform lists them and \<open>fresh_id\<close>
  the id it gives the next one.  \<open>trace\<close> records every external call issued, with
  the time at which it was issued, and \<open>failed\<close> what \<^verbatim>\<open>core.setFailed\<close> was
  called with.
\<close>

record world =
  now :: nat
  deadline :: nat
  pull_request_number :: "nat option"
  latency :: "nat \<Rightarrow> nat"
  fault :: "nat \<Rightarrow> js_error option"
  file_pages :: "ChangedFile list list"
  prompt_txt :: "js_error + string"
  completion :: HttpResponse
  gitleaks_report :: report
  comments :: "PRComment list"
  fresh_id :: nat
  trace :: "(nat \<times> call) list"
  failed :: "string option"

text \<open>An action returns a value or throws, and changes the world.\<close>

type_synonym 'a action = "world \<Rightarrow> (js_error + 'a) \<times> world"

definition return :: "'a \<Rightarrow> 'a action" where
  "return x w = (Inr x, w)"

definition throw :: "js_error \<Rightarrow> 'a action" where
  "throw e w = (Inl e, w)"

definition bind :: "'a action \<Rightarrow> ('a \<Rightarrow> 'b action) \<Rightarrow> 'b action" where
  "bind m f w = (case m w of (Inl e, w') \<Rightarrow> (Inl e, w') | (Inr x, w') \<Rightarrow> f x w')"

text \<open>
  Issuing an external call: it is recorded with the current time, time passes, and
  the call fails or succeeds.
\<close>

definition issued :: "call \<Rightarrow> world \<Rightarrow> world" where
  "issued c w =
     w\<lparr> trace := trace w @ [(now w, c)], now := now w + latency w (length (trace w)) \<rparr>"

definition external :: "call \<Rightarrow> unit action" where
  "external c w =
     (case fault w (length (trace w)) of
        Some e \<Rightarrow> (Inl e, issued c w)
      | None \<Rightarrow> (Inr (), issued c w))"

text \<open>\<^verbatim>\<open>deadline = started + Number(TIME_BUDGET_SECONDS) * 1000\<close>.\<close>

definition deadline_after :: "nat \<Rightarrow> nat \<Rightarrow> nat" where
  "deadline_after started seconds = started + seconds * 1000"

definition abortIfTimeUp :: "unit action" where
  "abortIfTimeUp w =
     (if now w > deadline w then throw (Error ''TIME_BUDGET_EXCEEDED'') w else return () w)"

definition getPRNumber :: "nat action" where
  "getPRNumber w =
     (case pull_request_number w of
        None \<Rightarrow> throw (Error ''This action must run on pull_request events.'') w
      | Some n \<Rightarrow>
          if n = 0 then throw (Error ''This action must run on pull_request events.'') w
          else return n w)"

definition per_page :: nat where
  "per_page = 100"

text \<open>
  The outer loop \<^verbatim>\<open>for (;;)\<close> of \<open>listChangedFiles\<close>, on the pages the endpoint
  still holds: the deadline check, the fetch of the page, the inner loop, and the
  exit tests.
\<close>

fun pages_loop :: "nat \<Rightarrow> caps \<Rightarrow> ChangedFile list list \<Rightarrow> nat \<Rightarrow> collected \<Rightarrow> collected action"
  where
  "pages_loop prNumber k [] page acc =
     bind abortIfTimeUp (\<lambda>_.
     bind (external (ListFiles prNumber page)) (\<lambda>_. return acc))"
| "pages_loop prNumber k (data # rest) page acc =
     bind abortIfTimeUp (\<lambda>_.
     bind (external (ListFiles prNumber page)) (\<lambda>_.
       if length data = 0 then return acc
       else
         let acc' = page_loop k data acc in
         if length data < per_page \<or> int (length (files acc')) \<ge> capFiles k
            \<or> totalLines acc' \<ge> capLines k
         then return acc'
         else pages_loop prNumber k rest (page + 1) acc'))"

definition listChangedFiles :: "nat \<Rightarrow> caps \<Rightarrow> collected action" where
  "listChangedFiles prNumber k w =
     pages_loop prNumber k (file_pages w) 1 \<lparr> files = [], totalLines = 0 \<rparr> w"

definition loadPrompt :: "string action" where
  "loadPrompt w = (case prompt_txt w of Inl e \<Rightarrow> throw e w | Inr s \<Rightarrow> return s w)"

fun buildUserMessage_loop :: "CollectedFile list \<Rightarrow> string \<Rightarrow> string" where
  "buildUserMessage_loop [] b = b"
| "buildUserMessage_loop (f # fs) b =
     buildUserMessage_loop fs
       (b @ [NL] @ ''=== FILE: '' @ filename f @ '' ('' @ status f @ '', +''
          @ string_of_int (additions f) @ ''/-'' @ string_of_int (deletions f) @ '') ==='' @ [NL]
          @ [CHR 0x60, CHR 0x60, CHR 0x60] @ ''diff'' @ [NL] @ patch f @ [NL]
          @ [CHR 0x60, CHR 0x60, CHR 0x60] @ [NL])"

definition buildUserMessage :: "CollectedFile list \<Rightarrow> string" where
  "buildUserMessage fs =
     buildUserMessage_loop fs (''>>> BEGIN_PATCHES'' @ [NL]) @ [NL] @ ''<<< END_PATCHES''"

definition QUOTA :: string where
  "QUOTA = ''OPENAI_INSUFFICIENT_QUOTA''"

definition upstream_message :: "nat \<Rightarrow> string \<Rightarrow> string" where
  "upstream_message st txt = ''OpenAI HTTP '' @ string_of_nat st @ '': '' @ txt"

text \<open>
  \<^verbatim>\<open>data.choices?.[0]?.message?.content?.trim() || ""\<close> on a response of the
  shape \<^verbatim>\<open>{choices: [{message: {content}}]}\<close>, each part of which may be absent.
\<close>

definition first_choice_text :: "ChatData \<Rightarrow> string" where
  "first_choice_text d =
     (case choices d of
        None \<Rightarrow> []
      | Some [] \<Rightarrow> []
      | Some (c # _) \<Rightarrow>
          (case message c of
             None \<Rightarrow> []
           | Some m \<Rightarrow>
               (case content m of
                  None \<Rightarrow> []
                | Some s \<Rightarrow> (if js_trim s = [] then [] else js_trim s))))"

definition callOpenAI :: "string \<Rightarrow> string \<Rightarrow> string action" where
  "callOpenAI systemPrompt userContent =
     bind abortIfTimeUp (\<lambda>_.
     bind (external (ChatCompletion systemPrompt userContent)) (\<lambda>_. (\<lambda>w.
       (let resp = completion w in
        if resp_status resp = 429 then throw (Error QUOTA) w
        else if \<not> resp_ok resp then
          throw (Error (upstream_message (resp_status resp) (resp_text resp))) w
        else
          (case resp_json resp of
             Inl e \<Rightarrow> throw e w
           | Inr d \<Rightarrow> return (first_choice_text d) w)))))"

definition COMMENT_TAG :: string where
  "COMMENT_TAG = ''<!-- secure-code-review-bot -->''"

text \<open>The body \<open>upsertPRComment\<close> composes; the lock emoji (U+1F510) is in UTF-8.\<close>

definition comment_header :: string where
  "comment_header =
     ''## '' @ [CHR 0xF0, CHR 0x9F, CHR 0x94, CHR 0x90] @ '' Secure Code Review (AI)'' @ [NL]
     @ COMMENT_TAG"

definition comment_footer :: string where
  "comment_footer = [NL, NL] @ ''---'' @ [NL] @ ''_Models can make mistakes. Verify before merging._''"

definition comment_body :: "string \<Rightarrow> string" where
  "comment_body c = comment_header @ [NL, NL] @ c @ comment_footer"

definition tagged :: "PRComment \<Rightarrow> bool" where
  "tagged c = (case body c of None \<Rightarrow> False | Some b \<Rightarrow> js_includes b COMMENT_TAG)"

definition set_body :: "nat \<Rightarrow> string \<Rightarrow> PRComment \<Rightarrow> PRComment" where
  "set_body i b c = (if comment_id c = i then c\<lparr> body := Some b \<rparr> else c)"

definition upsertPRComment :: "nat \<Rightarrow> string \<Rightarrow> unit action" where
  "upsertPRComment prNumber c =
     bind abortIfTimeUp (\<lambda>_.
     let b = comment_body c in
     bind (external (ListComments prNumber)) (\<lambda>_. (\<lambda>w.
       (case find tagged (take 100 (comments w)) of
          Some mine \<Rightarrow>
            bind (external (UpdateComment (comment_id mine) b)) (\<lambda>_. (\<lambda>w'.
              return () (w'\<lparr> comments := map (set_body (comment_id mine) b) (comments w') \<rparr>))) w
        | None \<Rightarrow>
            bind (external (CreateComment prNumber b)) (\<lambda>_. (\<lambda>w'.
              return () (w'\<lparr> comments := comments w' @ [\<lparr> comment_id = fresh_id w', body = Some b \<rparr>],
                             fresh_id := fresh_id w' + 1 \<rparr>))) w))))"

definition setFailed :: "string \<Rightarrow> unit action" where
  "setFailed m w = return () (w\<lparr> failed := Some m \<rparr>)"

text \<open>The warning sign (U+26A0 U+FE0F) of the failure comments, in UTF-8.\<close>

definition warning_sign :: string where
  "warning_sign = [CHR 0xE2, CHR 0x9A, CHR 0xA0, CHR 0xEF, CHR 0xB8, CHR 0x8F]"

definition quota_comment :: string where
  "quota_comment =
     warning_sign @ '' Could not complete review: **API quota exceeded**. Add billing or use another provider.''"

definition failure_comment :: "string \<Rightarrow> string" where
  "failure_comment s = warning_sign @ '' Could not complete review: '' @ [CHR 0x60] @ s @ [CHR 0x60]"

text \<open>The body of the \<^verbatim>\<open>try\<close> of \<open>run\<close>.\<close>

definition run_try :: "caps \<Rightarrow> unit action" where
  "run_try k =
     bind getPRNumber (\<lambda>prNumber.
     bind (listChangedFiles prNumber k) (\<lambda>r.
       if length (files r) = 0 then upsertPRComment prNumber ''No eligible code changes.''
       else
         bind loadPrompt (\<lambda>systemPrompt.
         let userMessage = buildUserMessage (files r) in
         bind (callOpenAI systemPrompt userMessage) (\<lambda>analysis. (\<lambda>w.
           (let gitleaks = loadGitLeaksFindings (gitleaks_report w);
                extras = summarizeGitLeaks gitleaks 10
            in upsertPRComment prNumber
                 (js_join [NL, NL]
                    (filter (\<lambda>s. s \<noteq> [])
                       [if analysis = [] then ''No output from model.'' else analysis, extras])) w))))))"

text \<open>The \<^verbatim>\<open>catch\<close> of \<open>run\<close>.\<close>

definition run_catch :: "js_error \<Rightarrow> unit action" where
  "run_catch err w =
     (let prNumber = pull_request_number w in
      bind
        (case prNumber of
           None \<Rightarrow> return ()
         | Some n \<Rightarrow>
             if n = 0 then return ()
             else if js_includes (String_of err) QUOTA then upsertPRComment n quota_comment
             else upsertPRComment n (failure_comment (String_of err)))
        (\<lambda>_. setFailed (String_of err)) w)"

definition run :: "caps \<Rightarrow> unit action" where
  "run k w = (case run_try k w of (Inr u, w') \<Rightarrow> (Inr u, w') | (Inl err, w') \<Rightarrow> run_catch err w')"

text \<open>The requests to the completion endpoint that a world's trace records.\<close>

fun is_completion :: "call \<Rightarrow> bool" where
  "is_completion (ChatCompletion _ _) = True"
| "is_completion _ = False"

definition completion_calls :: "world \<Rightarrow> call list" where
  "completion_calls w = filter is_completion (map snd (trace w))"

text \<open>
  The calls that the source places right after a call of \<open>abortIfTimeUp\<close>, and the
  worlds in whose trace each of them was issued in time.
\<close>

fun guarded :: "call \<Rightarrow> bool" where
  "guarded (ListFiles _ _) = True"
| "guarded (ChatCompletion _ _) = True"
| "guarded (ListComments _) = True"
| "guarded (UpdateComment _ _) = False"
| "guarded (CreateComment _ _) = False"

definition checks_hold :: "world \<Rightarrow> bool" where
  "checks_hold w = list_all (\<lambda>(t, c). if guarded c then t \<le> deadline w else True) (trace w)"

section \<open>Example inputs\<close>

text \<open>
  A world in which every call succeeds and takes one millisecond, with the default
  time budget of 100 seconds, on pull request 7; the examples below change single
  fields of it.
\<close>

definition quiet_world :: world where
  "quiet_world =
     \<lparr> now = 0, deadline = deadline_after 0 100, pull_request_number = Some 7,
       latency = (\<lambda>_. 1), fault = (\<lambda>_. None), file_pages = [],
       prompt_txt = Inr ''Review the diff.'',
       completion = \<lparr> resp_status = 200, resp_text = [], resp_json = Inr \<lparr> choices = None \<rparr> \<rparr>,
       gitleaks_report = NoReport, comments = [], fresh_id = 1, trace = [], failed = None \<rparr>"

definition added3 :: string where
  "added3 = ''+a'' @ [NL] @ ''+b'' @ [NL] @ ''+c''"

definition py_file :: "string \<Rightarrow> string \<Rightarrow> ChangedFile" where
  "py_file n p =
     \<lparr> filename = n, status = ''modified'', additions = 3, deletions = 0, patch = Some p \<rparr>"

definition small_caps :: caps where
  "small_caps = \<lparr> capFiles = 30, capLines = 4, perFileCap = 2, riskySet = [''js'', ''py''],
       toLowerCase = asciiLowerCase \<rparr>"

definition two_files_world :: world where
  "two_files_world =
     quiet_world\<lparr> file_pages := [[py_file ''a.py'' added3, py_file ''b.py'' added3]] \<rparr>"

text \<open>A pull request that already has one hundred comments, none of them the bot's.\<close>

definition plain :: "nat \<Rightarrow> PRComment" where
  "plain i = \<lparr> comment_id = i, body = Some ''LGTM'' \<rparr>"

definition busy_world :: world where
  "busy_world = quiet_world\<lparr> comments := map plain [1..<101], fresh_id := 101 \<rparr>"

text \<open>Worlds in which the budget is spent, the platform is down, or listing is slow.\<close>

definition late_world :: world where
  "late_world = quiet_world\<lparr> now := 100001 \<rparr>"

definition outage_world :: world where
  "outage_world = quiet_world\<lparr> fault := (\<lambda>_. Some (JsError ''HttpError'' ''Server Error'')) \<rparr>"

definition slow_world :: world where
  "slow_world = quiet_world\<lparr> latency := (\<lambda>_. 200000) \<rparr>"

text \<open>Findings of a report, and a response of the completion endpoint.\<close>

definition leak :: "int \<Rightarrow> finding" where
  "leak n =
     \<lparr> fld_File = JStr ''config.yml'', fld_file = JUndefined, fld_Path = JUndefined,
       fld_RuleID = JUndefined, fld_ruleID = JUndefined, fld_Rule = JStr ''aws-key'',
       fld_StartLine = JNum n, fld_startLine = JUndefined, fld_Line = JUndefined \<rparr>"

definition answer :: "string \<Rightarrow> HttpResponse" where
  "answer s =
     \<lparr> resp_status = 200, resp_text = [],
       resp_json = Inr \<lparr> choices = Some [\<lparr> message = Some \<lparr> content = Some s \<rparr> \<rparr>] \<rparr> \<rparr>"

definition refusal :: "nat \<Rightarrow> string \<Rightarrow> HttpResponse" where
  "refusal st txt =
     \<lparr> resp_status = st, resp_text = txt, resp_json = Inl (JsError ''SyntaxError'' ''Unexpected token'') \<rparr>"




text \<open>The defaults of \<open>MAX_FILES\<close>, \<open>MAX_LINES\<close>, \<open>LINE_TRIM_PER_FILE\<close> and \<open>RISKY_EXTS\<close>.\<close>

definition RISKY_EXTS :: string where
  "RISKY_EXTS = ''js,ts,tsx,jsx,py,go,rb,php,java,kt,cs,rs,swift,c,cc,cpp,h,sql,sh,ps1,yml,yaml,json,html,htm,css,scss,vue,mdx''"

definition default_caps :: caps where
  "default_caps =
     \<lparr> capFiles = 30, capLines = 1200, perFileCap = 300,
       riskySet = riskySet_of asciiLowerCase RISKY_EXTS, toLowerCase = asciiLowerCase \<rparr>"

text \<open>
  A pull request of five files of which one is eligible, and the pull request of
  Scenario A: \<open>app.py\<close>, modified, with one hunk of five context lines, two added
  lines and one removed line.
\<close>

definition mixed_world :: world where
  "mixed_world =
     quiet_world\<lparr> file_pages :=
       [[\<lparr> filename = ''README.md'', status = ''modified'', additions = 1, deletions = 0,
           patch = Some ''+text'' \<rparr>,
         \<lparr> filename = ''old.py'', status = ''removed'', additions = 0, deletions = 1,
           patch = Some ''-x'' \<rparr>,
         \<lparr> filename = ''big.py'', status = ''modified'', additions = 900, deletions = 0,
           patch = None \<rparr>,
         \<lparr> filename = ''mode.py'', status = ''modified'', additions = 0, deletions = 0,
           patch = Some '' unchanged'' \<rparr>,
         py_file ''a.py'' added3]] \<rparr>"




definition app_py_patch :: string where
  "app_py_patch =
     ''@@ -1,6 +1,7 @@'' @ [NL] @ '' import os'' @ [NL] @ '' import sys'' @ [NL]
     @ ''+import hmac'' @ [NL] @ ''+import secrets'' @ [NL] @ '' '' @ [NL]
     @ ''-import md5'' @ [NL] @ '' def main():'' @ [NL] @ ''     pass''"

definition app_py :: ChangedFile where
  "app_py =
     \<lparr> filename = ''app.py'', status = ''modified'', additions = 2, deletions = 1,
       patch = Some app_py_patch \<rparr>"

definition scenario_A_world :: world where
  "scenario_A_world = quiet_world\<lparr> file_pages := [[app_py]] \<rparr>"

section \<open>Properties\<close>

subsection \<open>Strings\<close>

lemma js_split_not_Nil: "js_split sep s \<noteq> []"
  by (induction s) (auto split: list.splits)

lemma js_split_no_sep: "l \<in> set (js_split c s) \<Longrightarrow> c \<notin> set l"
proof (induction s arbitrary: l)
  case Nil
  then show ?case by simp
next
  case (Cons a s)
  then show ?case
    by (cases "js_split c s") (auto simp: js_split_not_Nil split: if_splits)
qed

lemma js_split_single: "c \<notin> set l \<Longrightarrow> js_split c l = [l]"
  by (induction l) auto

lemma js_split_sep_append: "c \<notin> set l \<Longrightarrow> js_split c (l @ c # s) = l # js_split c s"
  by (induction l) (auto)

lemma js_split_join:
  "ls \<noteq> [] \<Longrightarrow> (\<And>l. l \<in> set ls \<Longrightarrow> c \<notin> set l) \<Longrightarrow> js_split c (js_join [c] ls) = ls"
proof (induction ls)
  case Nil
  then show ?case by simp
next
  case (Cons l ls)
  show ?case
  proof (cases ls)
    case Nil
    with Cons.prems show ?thesis by (simp add: js_split_single)
  next
    case (Cons m ms)
    with Cons.IH Cons.prems show ?thesis by (simp add: js_split_sep_append)
  qed
qed

lemma digit_char_not_NL: "d < 10 \<Longrightarrow> digit_char d \<noteq> NL"
proof -
  assume "d < 10"
  then have "''0123456789'' ! d \<in> set ''0123456789''"
    by (intro nth_mem) simp
  then show ?thesis
    by (auto simp: digit_char_def NL_def)
qed

lemma string_of_nat_no_NL: "NL \<notin> set (string_of_nat n)"
proof (induction n rule: string_of_nat.induct)
  case (1 n)
  show ?case
  proof (cases "n < 10")
    case True
    then show ?thesis using digit_char_not_NL [of n] by (subst string_of_nat.simps) auto
  next
    case False
    then show ?thesis
      using 1 digit_char_not_NL [of "n mod 10"] by (subst string_of_nat.simps) auto
  qed
qed

lemma string_of_int_no_NL: "NL \<notin> set (string_of_int i)"
  using string_of_nat_no_NL [of "nat i"] string_of_nat_no_NL [of "nat (- i)"]
  by (simp add: string_of_int_def NL_def)

lemma more_note_no_NL: "NL \<notin> set (ellipsis @ ''and '' @ string_of_int n @ '' more.'')"
  using string_of_int_no_NL [of n] by (simp add: ellipsis_def NL_def)

lemma heading_no_NL: "NL \<notin> set gitleaks_heading"
  by (simp add: gitleaks_heading_def NL_def)

lemma js_split_append_sep:
  "js_split c (a @ c # b) = js_split c a @ js_split c b"
  by (induction a) (auto split: list.splits simp: js_split_not_Nil)




text \<open>
  The characters that a kept line of a patch starts with are bytes of no white-space
  sequence: a string that starts with one of them has a trim that is not empty.
\<close>

lemma kept_char_black:
  assumes "c = CHR ''@'' \<or> c = CHR ''+'' \<or> c = CHR ''-''"
  shows "\<not> white1 c" and "\<not> white2 c x" and "\<not> white2 x c"
    and "\<not> white3 c x y" and "\<not> white3 x c y" and "\<not> white3 x y c"
  using assms by (auto simp: white1_def white2_def white3_def)

lemma trimStart_kept:
  assumes "c = CHR ''@'' \<or> c = CHR ''+'' \<or> c = CHR ''-''"
  shows "trimStart (c # s) = c # s"
  by (cases "c # s" rule: trimStart.cases) (auto simp: kept_char_black [OF assms])

lemma trimEnd_rev_kept:
  assumes "c = CHR ''@'' \<or> c = CHR ''+'' \<or> c = CHR ''-''" and "c \<in> set s"
  shows "c \<in> set (trimEnd_rev s)"
  using assms(2)
  by (induction s rule: trimEnd_rev.induct) (auto simp: kept_char_black [OF assms(1)])

lemma js_trim_kept:
  assumes "c = CHR ''@'' \<or> c = CHR ''+'' \<or> c = CHR ''-''"
  shows "js_trim (c # s) \<noteq> []"
proof -
  have "c \<in> set (trimEnd_rev (rev (c # s)))"
    by (rule trimEnd_rev_kept [OF assms]) simp
  then show ?thesis
    by (auto simp: js_trim_def trimStart_kept [OF assms])
qed

subsection \<open>Actions\<close>

lemma abortIfTimeUp_in_time: "now w \<le> deadline w \<Longrightarrow> abortIfTimeUp w = (Inr (), w)"
  by (simp add: abortIfTimeUp_def return_def)

lemma abortIfTimeUp_late:
  "deadline w < now w \<Longrightarrow> abortIfTimeUp w = (Inl (Error ''TIME_BUDGET_EXCEEDED''), w)"
  by (simp add: abortIfTimeUp_def throw_def)

lemma external_succeeds:
  "fault w (length (trace w)) = None \<Longrightarrow> external c w = (Inr (), issued c w)"
  by (simp add: external_def)

lemma external_fails:
  "fault w (length (trace w)) = Some e \<Longrightarrow> external c w = (Inl e, issued c w)"
  by (simp add: external_def)

lemma issued_fields [simp]:
  "trace (issued c w) = trace w @ [(now w, c)]"
  "now (issued c w) = now w + latency w (length (trace w))"
  "deadline (issued c w) = deadline w"
  "fault (issued c w) = fault w"
  "latency (issued c w) = latency w"
  "comments (issued c w) = comments w"
  "fresh_id (issued c w) = fresh_id w"
  "failed (issued c w) = failed w"
  "pull_request_number (issued c w) = pull_request_number w"
  "completion (issued c w) = completion w"
  "file_pages (issued c w) = file_pages w"
  "prompt_txt (issued c w) = prompt_txt w"
  "gitleaks_report (issued c w) = gitleaks_report w"
  by (simp_all add: issued_def)

text \<open>What \<open>upsertPRComment\<close> does when it is in time and both of its calls succeed.\<close>

lemma upsert_creates:
  assumes "now w \<le> deadline w"
    and "fault w (length (trace w)) = None"
    and "fault w (Suc (length (trace w))) = None"
    and "find tagged (take 100 (comments w)) = None"
  shows "upsertPRComment n c w =
           (Inr (), (issued (CreateComment n (comment_body c)) (issued (ListComments n) w))
                      \<lparr> comments := comments w @ [\<lparr> comment_id = fresh_id w, body = Some (comment_body c) \<rparr>],
                        fresh_id := fresh_id w + 1 \<rparr>)"
  using assms
  by (simp add: upsertPRComment_def bind_def abortIfTimeUp_in_time external_succeeds return_def
      Let_def)

lemma upsert_updates:
  assumes "now w \<le> deadline w"
    and "fault w (length (trace w)) = None"
    and "fault w (Suc (length (trace w))) = None"
    and "find tagged (take 100 (comments w)) = Some mine"
  shows "upsertPRComment n c w =
           (Inr (), (issued (UpdateComment (comment_id mine) (comment_body c)) (issued (ListComments n) w))
                      \<lparr> comments := map (set_body (comment_id mine) (comment_body c)) (comments w) \<rparr>)"
  using assms
  by (simp add: upsertPRComment_def bind_def abortIfTimeUp_in_time external_succeeds return_def
      Let_def)

lemma upsert_late:
  "deadline w < now w \<Longrightarrow> upsertPRComment n c w = (Inl (Error ''TIME_BUDGET_EXCEEDED''), w)"
  by (simp add: upsertPRComment_def bind_def abortIfTimeUp_late)

lemma upsert_list_fails:
  assumes "now w \<le> deadline w" and "fault w (length (trace w)) = Some e"
  shows "upsertPRComment n c w = (Inl e, issued (ListComments n) w)"
  using assms
  by (simp add: upsertPRComment_def bind_def abortIfTimeUp_in_time external_fails Let_def)

lemma comment_body_tagged: "js_includes (comment_body c) COMMENT_TAG"
  by (simp add: comment_body_def comment_header_def COMMENT_TAG_def startsWith_def)

lemma find_plain: "find tagged (map plain xs) = None"
  by (induction xs) (simp_all add: plain_def tagged_def COMMENT_TAG_def startsWith_def)

lemma filter_plain: "filter tagged (map plain xs) = []"
  by (induction xs) (simp_all add: plain_def tagged_def COMMENT_TAG_def startsWith_def)

text \<open>What \<open>callOpenAI\<close> does when it is in time and the request gets its response.\<close>

lemma upstream_not_quota: "Error (upstream_message st txt) \<noteq> Error QUOTA"
  by (simp add: Error_def upstream_message_def QUOTA_def)

lemma callOpenAI_in_time:
  assumes "now w \<le> deadline w" and "fault w (length (trace w)) = None"
  shows "callOpenAI sp uc w =
           (let r = completion w in
            (if resp_status r = 429 then Inl (Error QUOTA)
             else if resp_ok r then
               (case resp_json r of Inl e \<Rightarrow> Inl e | Inr d \<Rightarrow> Inr (first_choice_text d))
             else Inl (Error (upstream_message (resp_status r) (resp_text r))),
             issued (ChatCompletion sp uc) w))"
  using assms
  by (simp add: callOpenAI_def bind_def abortIfTimeUp_in_time external_succeeds Let_def
      throw_def return_def split: sum.splits)

lemma not_ok_429: "resp_status r = 429 \<Longrightarrow> \<not> resp_ok r"
  by (simp add: resp_ok_def)



text \<open>Every way \<open>upsertPRComment\<close> can go.\<close>

lemma upsert_cases:
  "upsertPRComment n c w =
     (if deadline w < now w then (Inl (Error ''TIME_BUDGET_EXCEEDED''), w)
      else
        (case fault w (length (trace w)) of
           Some e \<Rightarrow> (Inl e, issued (ListComments n) w)
         | None \<Rightarrow>
             (case find tagged (take 100 (comments w)) of
                Some mine \<Rightarrow>
                  (case fault w (Suc (length (trace w))) of
                     Some e \<Rightarrow>
                       (Inl e, issued (UpdateComment (comment_id mine) (comment_body c))
                                 (issued (ListComments n) w))
                   | None \<Rightarrow>
                       (Inr (), (issued (UpdateComment (comment_id mine) (comment_body c))
                                   (issued (ListComments n) w))
                                \<lparr> comments := map (set_body (comment_id mine) (comment_body c)) (comments w) \<rparr>))
              | None \<Rightarrow>
                  (case fault w (Suc (length (trace w))) of
                     Some e \<Rightarrow>
                       (Inl e, issued (CreateComment n (comment_body c)) (issued (ListComments n) w))
                   | None \<Rightarrow>
                       (Inr (), (issued (CreateComment n (comment_body c)) (issued (ListComments n) w))
                                \<lparr> comments := comments w @ [\<lparr> comment_id = fresh_id w, body = Some (comment_body c) \<rparr>],
                                  fresh_id := fresh_id w + 1 \<rparr>)))))"
  by (simp add: upsertPRComment_def bind_def abortIfTimeUp_def external_def return_def throw_def
      Let_def split: option.splits)


lemma completion_calls_update [simp]:
  "completion_calls (w\<lparr> comments := cs \<rparr>) = completion_calls w"
  "completion_calls (w\<lparr> fresh_id := i \<rparr>) = completion_calls w"
  "completion_calls (w\<lparr> failed := m \<rparr>) = completion_calls w"
  by (simp_all add: completion_calls_def)


lemma upsert_failed: "failed (snd (upsertPRComment n c w)) = failed w"
  by (simp add: upsert_cases split: option.splits)


text \<open>One turn of the outer loop of \<open>listChangedFiles\<close>.\<close>

lemma pages_loop_late:
  "deadline w < now w \<Longrightarrow>
     pages_loop n k ps page acc w = (Inl (Error ''TIME_BUDGET_EXCEEDED''), w)"
  by (cases ps) (simp_all add: bind_def abortIfTimeUp_late)

lemma pages_loop_fault:
  "now w \<le> deadline w \<Longrightarrow> fault w (length (trace w)) = Some e \<Longrightarrow>
     pages_loop n k ps page acc w = (Inl e, issued (ListFiles n page) w)"
  by (cases ps) (simp_all add: bind_def abortIfTimeUp_in_time external_fails)

lemma pages_loop_Nil:
  "now w \<le> deadline w \<Longrightarrow> fault w (length (trace w)) = None \<Longrightarrow>
     pages_loop n k [] page acc w = (Inr acc, issued (ListFiles n page) w)"
  by (simp add: bind_def abortIfTimeUp_in_time external_succeeds return_def)

lemma pages_loop_Cons:
  "now w \<le> deadline w \<Longrightarrow> fault w (length (trace w)) = None \<Longrightarrow>
     pages_loop n k (d # ps) page acc w =
       (if length d = 0 then (Inr acc, issued (ListFiles n page) w)
        else if length d < per_page \<or> int (length (files (page_loop k d acc))) \<ge> capFiles k
                \<or> totalLines (page_loop k d acc) \<ge> capLines k
          then (Inr (page_loop k d acc), issued (ListFiles n page) w)
        else pages_loop n k ps (page + 1) (page_loop k d acc) (issued (ListFiles n page) w))"
  by (simp add: bind_def abortIfTimeUp_in_time external_succeeds return_def Let_def)

declare pages_loop.simps [simp del]











text \<open>
  On a pull request with fewer than one hundred comments, none of them tagged, two
  successful calls of \<open>upsertPRComment\<close> leave one tagged comment, with the body of
  the second call.
\<close>

lemma find_append:
  "find P (xs @ ys) = (case find P xs of None \<Rightarrow> find P ys | Some x \<Rightarrow> Some x)"
  by (induction xs) simp_all

lemma find_filter_Nil: "filter P xs = [] \<Longrightarrow> find P xs = None"
  by (induction xs) (simp_all split: if_splits)

lemma set_body_other: "i \<notin> comment_id ` set cs \<Longrightarrow> map (set_body i b) cs = cs"
  by (induction cs) (simp_all add: set_body_def)

lemma upsert_twice_small:
  assumes small: "length (comments w) < 100"
    and none: "filter tagged (comments w) = []"
    and fresh: "fresh_id w \<notin> comment_id ` set (comments w)"
    and first: "upsertPRComment n c1 w = (Inr (), w1)"
    and second: "upsertPRComment n c2 w1 = (Inr (), w2)"
  shows "filter tagged (comments w2) =
           [\<lparr> comment_id = fresh_id w, body = Some (comment_body c2) \<rparr>]"
proof -
  let ?new = "\<lparr> comment_id = fresh_id w, body = Some (comment_body c1) \<rparr>"
  have new: "tagged ?new"
    by (simp add: tagged_def comment_body_tagged)
  have "find tagged (take 100 (comments w)) = None"
    using small none by (simp add: find_filter_Nil)
  with first have w1: "comments w1 = comments w @ [?new]"
    by (auto simp: upsert_cases split: if_splits option.splits)
  have "take 100 (comments w1) = comments w @ [?new]"
    using small by (simp add: w1)
  then have found: "find tagged (take 100 (comments w1)) = Some ?new"
    using none new by (simp add: find_append find_filter_Nil)
  with second have "comments w2 = map (set_body (fresh_id w) (comment_body c2)) (comments w1)"
    by (auto simp: upsert_cases split: if_splits option.splits)
  then have "comments w2 =
      comments w @ [\<lparr> comment_id = fresh_id w, body = Some (comment_body c2) \<rparr>]"
    using fresh by (simp add: w1 set_body_other) (simp add: set_body_def)
  then show ?thesis
    using none by (simp add: tagged_def comment_body_tagged)
qed

text \<open>
  The handler of \<open>run\<close>: when its comment is posted it calls \<open>setFailed\<close>; when the
  post throws, the error leaves the handler and \<open>setFailed\<close> is not called.
\<close>

lemma run_catch_post_fails:
  assumes "pull_request_number w = Some n" and "n \<noteq> 0"
    and "upsertPRComment n (if js_includes (String_of err) QUOTA then quota_comment
                            else failure_comment (String_of err)) w = (Inl e, w')"
  shows "run_catch err w = (Inl e, w')" and "failed w' = failed w"
proof -
  show "run_catch err w = (Inl e, w')"
    using assms by (simp add: run_catch_def bind_def Let_def split: if_splits)
  show "failed w' = failed w"
    using upsert_failed [of n "if js_includes (String_of err) QUOTA then quota_comment
                            else failure_comment (String_of err)" w]
    by (simp only: assms(3) snd_conv)
qed

lemma run_catch_posted:
  assumes "pull_request_number w = Some n" and "n \<noteq> 0"
    and "upsertPRComment n (if js_includes (String_of err) QUOTA then quota_comment
                            else failure_comment (String_of err)) w = (Inr (), w')"
  shows "run_catch err w = (Inr (), w'\<lparr> failed := Some (String_of err) \<rparr>)"
  using assms by (simp add: run_catch_def bind_def Let_def setFailed_def return_def split: if_splits)

text \<open>
  Every page fetch, completion request and comment listing of a run is issued in time:
  the check before each of them holds in every run.
\<close>

lemma checks_issued_in_time:
  "checks_hold w \<Longrightarrow> now w \<le> deadline w \<Longrightarrow> checks_hold (issued c w)"
  by (auto simp: checks_hold_def issued_def list_all_iff split: if_splits)

lemma checks_issued_write:
  "checks_hold w \<Longrightarrow> \<not> guarded c \<Longrightarrow> checks_hold (issued c w)"
  by (auto simp: checks_hold_def issued_def list_all_iff split: if_splits)

lemma checks_hold_update [simp]:
  "checks_hold (w\<lparr> comments := cs \<rparr>) = checks_hold w"
  "checks_hold (w\<lparr> fresh_id := i \<rparr>) = checks_hold w"
  "checks_hold (w\<lparr> failed := m \<rparr>) = checks_hold w"
  by (simp_all add: checks_hold_def)

lemma pages_loop_checks:
  "checks_hold w \<Longrightarrow> checks_hold (snd (pages_loop n k ps page acc w))"
proof (induction ps arbitrary: page acc w)
  case Nil
  then show ?case
    by (cases "deadline w < now w"; cases "fault w (length (trace w))")
       (simp_all add: pages_loop_late pages_loop_fault pages_loop_Nil checks_issued_in_time)
next
  case (Cons d ps)
  show ?case
  proof (cases "deadline w < now w")
    case True
    with Cons.prems show ?thesis by (simp add: pages_loop_late)
  next
    case False
    then have listed: "checks_hold (issued (ListFiles n page) w)"
      using Cons.prems by (simp add: checks_issued_in_time)
    show ?thesis
    proof (cases "fault w (length (trace w))")
      case (Some e)
      with False listed show ?thesis by (simp add: pages_loop_fault)
    next
      case None
      with False have step: "pages_loop n k (d # ps) page acc w =
          (if length d = 0 then (Inr acc, issued (ListFiles n page) w)
           else if length d < per_page \<or> int (length (files (page_loop k d acc))) \<ge> capFiles k
                   \<or> totalLines (page_loop k d acc) \<ge> capLines k
             then (Inr (page_loop k d acc), issued (ListFiles n page) w)
           else pages_loop n k ps (page + 1) (page_loop k d acc) (issued (ListFiles n page) w))"
        by (intro pages_loop_Cons) simp_all
      show ?thesis
        unfolding step using listed Cons.IH [OF listed] by simp
    qed
  qed
qed

lemma listChangedFiles_checks:
  "checks_hold w \<Longrightarrow> checks_hold (snd (listChangedFiles n k w))"
  unfolding listChangedFiles_def by (rule pages_loop_checks)

lemma upsert_checks:
  "checks_hold w \<Longrightarrow> checks_hold (snd (upsertPRComment n c w))"
  by (simp add: upsert_cases checks_issued_in_time checks_issued_write split: option.splits)

lemma callOpenAI_checks:
  "checks_hold w \<Longrightarrow> checks_hold (snd (callOpenAI sp uc w))"
proof (cases "deadline w < now w")
  case True
  assume "checks_hold w"
  with True show ?thesis
    by (simp add: callOpenAI_def bind_def abortIfTimeUp_late)
next
  case False
  assume "checks_hold w"
  with False have sent: "checks_hold (issued (ChatCompletion sp uc) w)"
    by (simp add: checks_issued_in_time)
  show ?thesis
  proof (cases "fault w (length (trace w))")
    case None
    with False sent show ?thesis
      by (simp add: callOpenAI_in_time Let_def)
  next
    case (Some e)
    with False sent show ?thesis
      by (simp add: callOpenAI_def bind_def abortIfTimeUp_in_time external_fails)
  qed
qed

lemma bind_checks:
  assumes "checks_hold w"
    and "\<And>v. checks_hold v \<Longrightarrow> checks_hold (snd (m v))"
    and "\<And>x v. checks_hold v \<Longrightarrow> checks_hold (snd (f x v))"
  shows "checks_hold (snd (bind m f w))"
proof (cases "m w")
  case (Pair x w1)
  then have "checks_hold w1"
    using assms(2) [OF assms(1)] by simp
  with Pair show ?thesis
    using assms(3) by (cases x) (simp_all add: bind_def)
qed

lemma run_try_checks: "checks_hold w \<Longrightarrow> checks_hold (snd (run_try k w))"
  unfolding run_try_def
  by (intro bind_checks listChangedFiles_checks)
     (auto simp: getPRNumber_def loadPrompt_def return_def throw_def Let_def
        intro!: bind_checks upsert_checks callOpenAI_checks listChangedFiles_checks
        split: option.splits sum.splits)

lemma run_catch_checks: "checks_hold w \<Longrightarrow> checks_hold (snd (run_catch err w))"
  unfolding run_catch_def Let_def
  by (intro bind_checks)
     (auto simp: return_def setFailed_def intro!: upsert_checks split: option.splits)

lemma run_checks: "checks_hold w \<Longrightarrow> checks_hold (snd (run k w))"
proof -
  assume w: "checks_hold w"
  show ?thesis
  proof (cases "run_try k w")
    case (Pair x w1)
    then have "checks_hold w1"
      using run_try_checks [OF w, of k] by simp
    with Pair show ?thesis
      by (cases x) (simp_all add: run_def run_catch_checks)
  qed
qed

text \<open>The definitions that evaluate a run on a concrete world.\<close>

lemmas eval_defs =
  pages_loop.simps run_def run_try_def run_catch_def getPRNumber_def listChangedFiles_def upsertPRComment_def
  callOpenAI_def loadPrompt_def setFailed_def bind_def return_def throw_def abortIfTimeUp_def
  external_def issued_def per_page_def file_step_def push_file_def isBinaryOrLarge_def
  hasRiskyExt_def asciiLowerCase_def lowerChar_def js_pop_def reducePatch_def keptLine_def
  startsWith_def NL_def js_trim_def white1_def white2_def white3_def trimPatchLines_def js_slice0_def Let_def
  tagged_def completion_calls_def quiet_world_def deadline_after_def

subsection \<open>The reduction of a patch and the extension test\<close>

lemma keptLine_starts:
  "keptLine l \<Longrightarrow> \<exists>c cs. l = c # cs \<and> (c = CHR ''@'' \<or> c = CHR ''+'' \<or> c = CHR ''-'')"
  by (cases l) (auto simp: keptLine_def startsWith_def)

lemma js_join_Cons: "js_join sep (l # ls) = l @ (if ls = [] then [] else sep @ js_join sep ls)"
  by (cases ls) simp_all

lemma js_trim_join_kept:
  assumes "ls \<noteq> []" and "\<forall>l \<in> set ls. keptLine l"
  shows "js_trim (js_join [NL] ls) \<noteq> []"
proof -
  from assms obtain l rest where ls: "ls = l # rest" and "keptLine l"
    by (cases ls) auto
  then obtain c cs where l: "l = c # cs"
    and kept: "c = CHR ''@'' \<or> c = CHR ''+'' \<or> c = CHR ''-''"
    using keptLine_starts by blast
  have "js_join [NL] ls = c # (cs @ (if rest = [] then [] else [NL] @ js_join [NL] rest))"
    by (simp add: ls l js_join_Cons)
  then show ?thesis
    using js_trim_kept [OF kept] by simp
qed

lemma reducePatch_lines:
  assumes "filter keptLine (js_split NL q) \<noteq> []"
  shows "js_split NL (reducePatch (Some q)) = filter keptLine (js_split NL q)"
proof -
  have "\<And>l. l \<in> set (filter keptLine (js_split NL q)) \<Longrightarrow> NL \<notin> set l"
    using js_split_no_sep [of _ NL q] by simp
  from js_split_join [OF assms this] show ?thesis
    by (simp only: reducePatch_def option.case)
qed

lemma reducePatch_nothing:
  "filter keptLine (js_split NL q) = [] \<Longrightarrow> reducePatch (Some q) = []"
  by (simp only: reducePatch_def option.case js_join.simps)

lemma js_trim_Nil: "js_trim [] = []"
  by (simp add: js_trim_def)

lemma reducePatch_trim:
  "js_trim (reducePatch x) = [] \<longleftrightarrow>
     filter keptLine (js_split NL (case x of None \<Rightarrow> [] | Some s \<Rightarrow> s)) = []"
proof -
  define ls where "ls = filter keptLine (js_split NL (case x of None \<Rightarrow> [] | Some s \<Rightarrow> s))"
  have red: "reducePatch x = js_join [NL] ls"
    by (simp only: reducePatch_def ls_def)
  have kept: "\<forall>l \<in> set ls. keptLine l"
    by (simp add: ls_def)
  have "js_trim (js_join [NL] ls) = [] \<longleftrightarrow> ls = []"
  proof (cases "ls = []")
    case True
    then show ?thesis by (simp add: js_trim_Nil)
  next
    case False
    then show ?thesis using js_trim_join_kept [OF False kept] by simp
  qed
  then show ?thesis
    by (simp only: red ls_def)
qed




subsection \<open>The loops of the collector\<close>

lemma push_file_result:
  assumes "push_file k f p acc = Break acc' \<or> push_file k f p acc = Continue acc'"
  shows "files acc' = files acc @
           [\<lparr> filename = filename f, status = status f, additions = additions f,
              deletions = deletions f, patch = p \<rparr>]"
    and "totalLines acc' = totalLines acc + int (length (js_split NL p))"
  using assms by (auto simp: push_file_def Let_def split: if_splits)




lemma starts_apart:
  "startsWith l ''@@'' \<Longrightarrow> \<not> startsWith l ''+'' \<and> \<not> startsWith l ''-''"
  "startsWith l ''+'' \<Longrightarrow> \<not> startsWith l ''-''"
  by (cases l; simp add: startsWith_def)+

lemma keptLine_count:
  "length (filter keptLine ls) =
     length (filter (\<lambda>l. startsWith l ''@@'') ls) + length (filter (\<lambda>l. startsWith l ''+'') ls)
     + length (filter (\<lambda>l. startsWith l ''-'') ls)"
proof (induction ls)
  case Nil
  show ?case by simp
next
  case (Cons l ls)
  show ?case
    using Cons.IH starts_apart [of l] by (auto simp: keptLine_def)
qed

lemma filter_kept:
  "filter (\<lambda>l. startsWith l ''@@'') (filter keptLine ls) = filter (\<lambda>l. startsWith l ''@@'') ls"
  "filter (\<lambda>l. startsWith l ''+'') (filter keptLine ls) = filter (\<lambda>l. startsWith l ''+'') ls"
  "filter (\<lambda>l. startsWith l ''-'') (filter keptLine ls) = filter (\<lambda>l. startsWith l ''-'') ls"
  by (induction ls) (auto simp: keptLine_def)

lemma trimPatchLines_fits:
  "int (length (js_split NL p)) \<le> limit \<Longrightarrow> trimPatchLines p limit = p"
  by (simp add: trimPatchLines_def Let_def)

text \<open>
  A patch of more than \<open>limit\<close> lines is trimmed to \<open>limit + 1\<close> lines; and the
  \<open>totalLines\<close> that \<open>listChangedFiles\<close> returns is the sum of the line counts of
  the patches it returns.
\<close>

lemma trimPatchLines_overshoot:
  assumes "0 \<le> limit" and "limit < int (length (js_split NL p))"
  shows "length (js_split NL (trimPatchLines p limit)) = nat limit + 1"
proof -
  define ls where "ls = js_split NL p"
  define header where "header = (if startsWith (hd ls) ''@@'' then hd ls else [])"
  have ne: "ls \<noteq> []"
    by (simp add: ls_def js_split_not_Nil)
  have clean: "\<And>l. l \<in> set ls \<Longrightarrow> NL \<notin> set l"
    unfolding ls_def by (rule js_split_no_sep)
  have "NL \<notin> set header"
    using clean [of "hd ls"] ne by (simp add: header_def)
  then have all: "\<And>l. l \<in> set (header # take (nat limit) ls) \<Longrightarrow> NL \<notin> set l"
    using clean by (auto dest: in_set_takeD)
  have "trimPatchLines p limit = js_join [NL] (header # take (nat limit) ls)"
    using assms by (simp add: trimPatchLines_def Let_def js_slice0_def ls_def header_def)
  moreover have "js_split NL (js_join [NL] (header # take (nat limit) ls)) =
                   header # take (nat limit) ls"
    by (rule js_split_join [OF _ all]) simp_all
  ultimately have "js_split NL (trimPatchLines p limit) = header # take (nat limit) ls"
    by (simp only:)
  then show ?thesis
    using assms by (simp add: ls_def)
qed

lemma push_file_total:
  assumes "push_file k f p acc = Break acc' \<or> push_file k f p acc = Continue acc'"
    and "totalLines acc = (\<Sum>c \<leftarrow> files acc. int (length (js_split NL (patch c))))"
  shows "totalLines acc' = (\<Sum>c \<leftarrow> files acc'. int (length (js_split NL (patch c))))"
  using push_file_result [OF assms(1)] assms(2) by simp

lemma file_step_total:
  assumes "file_step k f acc = Break acc' \<or> file_step k f acc = Continue acc'"
    and "totalLines acc = (\<Sum>c \<leftarrow> files acc. int (length (js_split NL (patch c))))"
  shows "totalLines acc' = (\<Sum>c \<leftarrow> files acc'. int (length (js_split NL (patch c))))"
  using assms
  by (auto simp: file_step_def Let_def split: if_splits intro: push_file_total)

lemma page_loop_total:
  assumes "totalLines acc = (\<Sum>c \<leftarrow> files acc. int (length (js_split NL (patch c))))"
  shows "totalLines (page_loop k fs acc) =
           (\<Sum>c \<leftarrow> files (page_loop k fs acc). int (length (js_split NL (patch c))))"
  using assms
proof (induction fs arbitrary: acc)
  case Nil
  then show ?case by simp
next
  case (Cons f fs)
  show ?case
  proof (cases "file_step k f acc")
    case (Break acc')
    then show ?thesis
      using file_step_total [of k f acc acc'] Cons.prems by simp
  next
    case (Continue acc')
    then show ?thesis
      using file_step_total [of k f acc acc'] Cons.prems Cons.IH [of acc'] by simp
  qed
qed

lemma pages_loop_total:
  assumes "pages_loop n k ps page acc w = (Inr r, w')"
    and "totalLines acc = (\<Sum>c \<leftarrow> files acc. int (length (js_split NL (patch c))))"
  shows "totalLines r = (\<Sum>c \<leftarrow> files r. int (length (js_split NL (patch c))))"
  using assms
proof (induction ps arbitrary: page acc w)
  case Nil
  then show ?case
    by (cases "deadline w < now w"; cases "fault w (length (trace w))")
       (simp_all add: pages_loop_late pages_loop_fault pages_loop_Nil)
next
  case (Cons d ps)
  have in_time: "now w \<le> deadline w"
    using Cons.prems(1) by (cases "deadline w < now w") (simp_all add: pages_loop_late)
  have no_fault: "fault w (length (trace w)) = None"
    using Cons.prems(1) in_time
    by (cases "fault w (length (trace w))") (simp_all add: pages_loop_fault)
  note step = pages_loop_Cons [OF in_time no_fault, of n k d ps page acc]
  note here = page_loop_total [OF Cons.prems(2), of k d]
  show ?case
  proof (cases "r = acc \<or> r = page_loop k d acc")
    case True
    with Cons.prems(2) here show ?thesis by auto
  next
    case False
    with Cons.prems(1)
    have "pages_loop n k ps (page + 1) (page_loop k d acc) (issued (ListFiles n page) w) = (Inr r, w')"
      unfolding step by (simp split: if_splits)
    from Cons.IH [OF this here] show ?thesis .
  qed
qed

lemma listChangedFiles_total:
  assumes "listChangedFiles n k w = (Inr r, w')"
  shows "totalLines r = (\<Sum>c \<leftarrow> files r. int (length (js_split NL (patch c))))"
  using assms unfolding listChangedFiles_def by (rule pages_loop_total) simp

text \<open>The allow-list that the default \<open>RISKY_EXTS\<close> gives.\<close>

lemma riskySet_default:
  "riskySet_of asciiLowerCase RISKY_EXTS =
     [''js'', ''ts'', ''tsx'', ''jsx'', ''py'', ''go'', ''rb'', ''php'', ''java'', ''kt'', ''cs'', ''rs'',
      ''swift'', ''c'', ''cc'', ''cpp'', ''h'', ''sql'', ''sh'', ''ps1'', ''yml'', ''yaml'', ''json'',
      ''html'', ''htm'', ''css'', ''scss'', ''vue'', ''mdx'']"
  by (simp add: riskySet_of_def RISKY_EXTS_def js_trim_def white1_def white2_def white3_def
      asciiLowerCase_def lowerChar_def)

subsection \<open>The claims\<close>

text \<open>
  C1.  The claim: the line counts of the collected patches never sum to more than the
  aggregate cap, and no patch has more lines than the per-file cap.  The code breaks
  it: \<open>trimPatchLines\<close> puts a header line (the empty string when the first line is
  no hunk header) in front of the first \<open>limit\<close> lines, so a trimmed patch has
  \<open>limit + 1\<close> lines.  With a per-file cap of 2 and an aggregate cap of 4, two files
  of three added lines each are collected as patches of 3 and 2 lines, 5 in all.
\<close>

theorem C1_caps_overrun:
  "fst (listChangedFiles 7 small_caps two_files_world) =
     Inr \<lparr> files =
             [\<lparr> filename = ''a.py'', status = ''modified'', additions = 3, deletions = 0,
                patch = [NL] @ ''+a'' @ [NL] @ ''+b'' \<rparr>,
              \<lparr> filename = ''b.py'', status = ''modified'', additions = 3, deletions = 0,
                patch = [NL] \<rparr>],
           totalLines = 5 \<rparr>
   \<and> length (js_split NL ([NL] @ ''+a'' @ [NL] @ ''+b'')) = 3
   \<and> length (js_split NL [NL]) = 2
   \<and> perFileCap small_caps = 2 \<and> capLines small_caps = 4"
  by (simp add: listChangedFiles_def pages_loop.simps two_files_world_def quiet_world_def deadline_after_def small_caps_def
      py_file_def added3_def bind_def return_def throw_def external_def issued_def
      abortIfTimeUp_def per_page_def file_step_def push_file_def isBinaryOrLarge_def
      hasRiskyExt_def asciiLowerCase_def lowerChar_def js_pop_def reducePatch_def keptLine_def
      startsWith_def NL_def js_trim_def white1_def white2_def white3_def trimPatchLines_def js_slice0_def
      Let_def)




text \<open>
  C3.  The claim: \<open>upsertPRComment\<close> keeps at most one marker-tagged comment per pull
  request, so that two runs leave exactly one.  The code lists a single page of 100
  comments; on a pull request that already has 100 other comments the comment of the
  first run is the 101st, the second run does not find it and creates a second one.
\<close>

theorem C3_second_comment_created:
  "map comment_id (filter tagged (comments (snd (upsertPRComment 7 ''second run''
       (snd (upsertPRComment 7 ''first run'' busy_world)))))) = [101, 102]"
proof -
  let ?b1 = "comment_body ''first run''" and ?b2 = "comment_body ''second run''"
  let ?c1 = "\<lparr> comment_id = 101, body = Some ?b1 \<rparr>"
  let ?w1 = "(issued (CreateComment 7 ?b1) (issued (ListComments 7) busy_world))
               \<lparr> comments := map plain [1..<101] @ [?c1], fresh_id := 102 \<rparr>"
  have first: "upsertPRComment 7 ''first run'' busy_world = (Inr (), ?w1)"
    using upsert_creates [where w = busy_world and n = 7 and c = "''first run''"]
    by (simp add: busy_world_def quiet_world_def deadline_after_def find_plain)
  have listed: "take 100 (comments ?w1) = map plain [1..<101]"
    by simp
  have second: "comments (snd (upsertPRComment 7 ''second run'' ?w1)) =
                  map plain [1..<101] @ [?c1, \<lparr> comment_id = 102, body = Some ?b2 \<rparr>]"
    using upsert_creates [where w = ?w1 and n = 7 and c = "''second run''"] listed
    by (simp add: busy_world_def quiet_world_def deadline_after_def find_plain)
  have both: "comments (snd (upsertPRComment 7 ''second run''
                  (snd (upsertPRComment 7 ''first run'' busy_world)))) =
                map plain [1..<101] @ [?c1, \<lparr> comment_id = 102, body = Some ?b2 \<rparr>]"
    by (simp only: first snd_conv second)
  have "tagged ?c1" and "tagged \<lparr> comment_id = 102, body = Some ?b2 \<rparr>"
    by (simp_all add: tagged_def comment_body_tagged)
  then show ?thesis
    unfolding both by (simp add: filter_plain)
qed

text \<open>
  C4.  The claim: every failure but the missing pull request is caught, a comment is
  attempted, and failure is then signalled without throwing, also when the comment
  cannot be posted.  The code calls \<open>upsertPRComment\<close> in the handler unguarded: when
  it throws, the error leaves \<open>run\<close> and \<open>setFailed\<close> is never called.  That is so
  whenever the time budget is spent (the handler's own deadline check throws again,
  and no comment is attempted), and when the platform is down.
\<close>

theorem C4_handler_throws:
  "fst (run small_caps late_world) = Inl (Error ''TIME_BUDGET_EXCEEDED'')
   \<and> failed (snd (run small_caps late_world)) = None
   \<and> trace (snd (run small_caps late_world)) = []
   \<and> fst (run small_caps outage_world) = Inl (JsError ''HttpError'' ''Server Error'')
   \<and> failed (snd (run small_caps outage_world)) = None
   \<and> map snd (trace (snd (run small_caps outage_world))) = [ListFiles 7 1, ListComments 7]"
  by (simp add: pages_loop.simps run_def run_try_def run_catch_def getPRNumber_def listChangedFiles_def
      upsertPRComment_def late_world_def outage_world_def quiet_world_def deadline_after_def bind_def return_def
      throw_def abortIfTimeUp_def external_def issued_def Error_def QUOTA_def startsWith_def
      Let_def)

text \<open>
  C5.  When \<open>callOpenAI\<close> is in time and its request gets a response: a status
  of 429 raises the quota error; any other status outside 200..299 raises the upstream
  error, whose message carries the status and the response body; a status in 200..299
  returns the text of the first choice, trimmed of the white space and line terminators
  of ECMAScript at both ends (the no-break space and the byte order mark among them), or
  the empty string when there is no first choice, message or content (an unreadable
  body raises the reader's error).
  When the body can be read, the quota error is raised exactly for status 429 and the
  upstream error exactly for the other statuses outside 200..299.  In every case one
  request has been issued and none other.
\<close>

theorem C5_callOpenAI:
  assumes "now w \<le> deadline w" and "fault w (length (trace w)) = None"
  shows
    "(resp_status (completion w) = 429 \<longrightarrow> fst (callOpenAI sp uc w) = Inl (Error QUOTA))
   \<and> (resp_status (completion w) \<noteq> 429 \<and> \<not> resp_ok (completion w) \<longrightarrow>
        fst (callOpenAI sp uc w) =
          Inl (Error (upstream_message (resp_status (completion w)) (resp_text (completion w)))))
   \<and> (resp_ok (completion w) \<longrightarrow>
        fst (callOpenAI sp uc w) =
          (case resp_json (completion w) of
             Inl e \<Rightarrow> Inl e
           | Inr d \<Rightarrow> Inr (first_choice_text d)))
   \<and> (resp_json (completion w) = Inr d \<longrightarrow>
        (fst (callOpenAI sp uc w) = Inl (Error QUOTA)) = (resp_status (completion w) = 429)
        \<and> (fst (callOpenAI sp uc w) =
              Inl (Error (upstream_message (resp_status (completion w)) (resp_text (completion w)))))
            = (resp_status (completion w) \<noteq> 429 \<and> \<not> resp_ok (completion w)))
   \<and> snd (callOpenAI sp uc w) = issued (ChatCompletion sp uc) w
   \<and> (choices d' = Some (c # cs) \<and> message c = Some m \<and> content m = Some s \<longrightarrow>
        first_choice_text d' = js_trim s)
   \<and> (choices d' = None \<or> choices d' = Some []
        \<or> (choices d' = Some (c # cs) \<and> message c = None)
        \<or> (choices d' = Some (c # cs) \<and> message c = Some m \<and> content m = None) \<longrightarrow>
        first_choice_text d' = [])"
proof -
  note run = callOpenAI_in_time [OF assms, of sp uc]
  have quota: "fst (callOpenAI sp uc w) = Inl (Error QUOTA)" if "resp_status (completion w) = 429"
    using that by (simp add: run Let_def)
  have upstream: "fst (callOpenAI sp uc w) =
      Inl (Error (upstream_message (resp_status (completion w)) (resp_text (completion w))))"
    if "resp_status (completion w) \<noteq> 429" and "\<not> resp_ok (completion w)"
    using that by (simp add: run Let_def)
  have success: "fst (callOpenAI sp uc w) =
      (case resp_json (completion w) of Inl e \<Rightarrow> Inl e | Inr d \<Rightarrow> Inr (first_choice_text d))"
    if "resp_ok (completion w)"
    using that not_ok_429 [of "completion w"] by (auto simp add: run Let_def)
  have exactly: "(fst (callOpenAI sp uc w) = Inl (Error QUOTA)) = (resp_status (completion w) = 429)
        \<and> (fst (callOpenAI sp uc w) =
              Inl (Error (upstream_message (resp_status (completion w)) (resp_text (completion w)))))
            = (resp_status (completion w) \<noteq> 429 \<and> \<not> resp_ok (completion w))"
    if "resp_json (completion w) = Inr d"
    using that upstream_not_quota [of "resp_status (completion w)" "resp_text (completion w)"]
    by (auto simp add: run Let_def)
  have once: "snd (callOpenAI sp uc w) = issued (ChatCompletion sp uc) w"
    by (simp add: run Let_def)
  have trimmed: "first_choice_text d' = js_trim s"
    if "choices d' = Some (c # cs)" and "message c = Some m" and "content m = Some s"
    using that by (simp add: first_choice_text_def)
  have none: "first_choice_text d' = []"
    if "choices d' = None \<or> choices d' = Some []
        \<or> (choices d' = Some (c # cs) \<and> message c = None)
        \<or> (choices d' = Some (c # cs) \<and> message c = Some m \<and> content m = None)"
    using that by (auto simp add: first_choice_text_def)
  show ?thesis
    using quota upstream success exactly once trimmed none by blast
qed

theorem C5_callOpenAI_witness:
  "fst (callOpenAI ''policy'' ''diff'' (quiet_world\<lparr> completion := refusal 429 ''slow down'' \<rparr>))
     = Inl (Error ''OPENAI_INSUFFICIENT_QUOTA'')
   \<and> fst (callOpenAI ''policy'' ''diff'' (quiet_world\<lparr> completion := refusal 500 ''boom'' \<rparr>))
     = Inl (Error ''OpenAI HTTP 500: boom'')
   \<and> fst (callOpenAI ''policy'' ''diff'' (quiet_world\<lparr> completion := answer ''  Looks fine. '' \<rparr>))
     = Inr ''Looks fine.''
   \<and> fst (callOpenAI ''policy'' ''diff''
            (quiet_world\<lparr> completion :=
               answer ([CHR 0xC2, CHR 0xA0] @ ''Looks fine.'' @ [CHR 0xC2, CHR 0xA0]) \<rparr>))
     = Inr ''Looks fine.''
   \<and> fst (callOpenAI ''policy'' ''diff''
            (quiet_world\<lparr> completion := answer [CHR 0xC2, CHR 0xA0] \<rparr>))
     = Inr []
   \<and> js_trim ([CHR 0xEF, CHR 0xBB, CHR 0xBF] @ ''a b'' @ [CHR 0xE2, CHR 0x80, CHR 0xA8, CHR 0x0D, NL])
     = ''a b''
   \<and> trace (snd (callOpenAI ''policy'' ''diff''
                   (quiet_world\<lparr> completion := answer ''  Looks fine. '' \<rparr>)))
     = [(0, ChatCompletion ''policy'' ''diff'')]"
  using C5_callOpenAI [where w = "quiet_world\<lparr> completion := refusal 429 ''slow down'' \<rparr>"
          and sp = "''policy''" and uc = "''diff''"]
    C5_callOpenAI [where w = "quiet_world\<lparr> completion := refusal 500 ''boom'' \<rparr>"
          and sp = "''policy''" and uc = "''diff''"]
    C5_callOpenAI [where w = "quiet_world\<lparr> completion := answer ''  Looks fine. '' \<rparr>"
          and sp = "''policy''" and uc = "''diff''"]
    C5_callOpenAI [where w = "quiet_world\<lparr> completion :=
               answer ([CHR 0xC2, CHR 0xA0] @ ''Looks fine.'' @ [CHR 0xC2, CHR 0xA0]) \<rparr>"
          and sp = "''policy''" and uc = "''diff''"]
    C5_callOpenAI [where w = "quiet_world\<lparr> completion := answer [CHR 0xC2, CHR 0xA0] \<rparr>"
          and sp = "''policy''" and uc = "''diff''"]
  by (simp add: quiet_world_def deadline_after_def refusal_def answer_def resp_ok_def QUOTA_def upstream_message_def
      string_of_nat.simps [of 500] string_of_nat.simps [of 50] string_of_nat.simps [of 5]
      digit_char_def first_choice_text_def js_trim_def white1_def white2_def white3_def NL_def
      issued_def)

text \<open>
  C6.  The claim: no external call is issued past the deadline, the check standing
  immediately before each.  The code checks once at the head of \<open>upsertPRComment\<close>
  and not again between the listing and the write: when the listing takes longer
  than the budget that is left, the comment is created 100 seconds past the deadline.
\<close>

theorem C6_write_past_deadline:
  "trace (snd (upsertPRComment 7 ''review'' slow_world)) =
     [(0, ListComments 7), (200000, CreateComment 7 (comment_body ''review''))]
   \<and> deadline slow_world = 100000"
  by (simp add: upsertPRComment_def slow_world_def quiet_world_def deadline_after_def bind_def return_def
      abortIfTimeUp_def external_def issued_def Let_def tagged_def)

text \<open>
  C7.  The reduction keeps the lines of the raw patch that start with \<open>@@\<close>,
  \<open>+\<close> or \<open>-\<close>, in their order, and no other line: the lines of the reduced patch
  are that sublist (and the reduced patch is empty when the sublist is).  Scenario A:
  for a pull request of one modified file with an allowed extension, whose patch has
  two added lines, one removed line, five context lines and \<open>h\<close> hunk headers, under
  the caps 30 / 1200 / 300 and in time, the collector returns exactly one file, whose
  patch has the two added lines, the removed line and the \<open>h\<close> headers, \<open>h + 3\<close>
  lines in all (which must fit the per-file cap: \<open>h + 3 \<le> 300\<close>).
\<close>

theorem C7_reduction:
  assumes world: "now w \<le> deadline w" "fault w (length (trace w)) = None" "file_pages w = [[f]]"
    and changed: "status f = ''modified''" "patch f = Some p" "hasRiskyExt lc rs (filename f)"
    and added: "length (filter (\<lambda>l. startsWith l ''+'') (js_split NL p)) = 2"
    and removed: "length (filter (\<lambda>l. startsWith l ''-'') (js_split NL p)) = 1"
    and unchanged: "length (filter (\<lambda>l. \<not> keptLine l) (js_split NL p)) = 5"
    and headers: "length (filter (\<lambda>l. startsWith l ''@@'') (js_split NL p)) = h" "h + 3 \<le> 300"
  shows "(\<exists>c. fst (listChangedFiles n
                 \<lparr> capFiles = 30, capLines = 1200, perFileCap = 300, riskySet = rs,
                   toLowerCase = lc \<rparr> w) =
               Inr \<lparr> files = [c], totalLines = int h + 3 \<rparr>
            \<and> filename c = filename f
            \<and> js_split NL (patch c) = filter keptLine (js_split NL p)
            \<and> length (js_split NL (patch c)) = h + 3
            \<and> length (filter (\<lambda>l. startsWith l ''+'') (js_split NL (patch c))) = 2
            \<and> length (filter (\<lambda>l. startsWith l ''-'') (js_split NL (patch c))) = 1
            \<and> length (filter (\<lambda>l. startsWith l ''@@'') (js_split NL (patch c))) = h)
       \<and> (filter keptLine (js_split NL q) \<noteq> [] \<longrightarrow>
            js_split NL (reducePatch (Some q)) = filter keptLine (js_split NL q))
       \<and> (filter keptLine (js_split NL q) = [] \<longrightarrow> reducePatch (Some q) = [])
       \<and> keptLine l = (startsWith l ''@@'' \<or> startsWith l ''+'' \<or> startsWith l ''-'')"
proof -
  define k where "k = \<lparr> capFiles = 30, capLines = 1200, perFileCap = 300, riskySet = rs,
                       toLowerCase = lc \<rparr>"
  define kept where "kept = filter keptLine (js_split NL p)"
  define p0 where "p0 = reducePatch (patch f)"
  define c where "c = \<lparr> filename = filename f, status = status f, additions = additions f,
                         deletions = deletions f, patch = p0 \<rparr>"
  have k: "capFiles k = 30" "capLines k = 1200" "perFileCap k = 300" "riskySet k = rs"
    "toLowerCase k = lc"
    by (simp_all add: k_def)
  have count: "length kept = h + 3"
    using added removed headers(1) by (simp add: kept_def keptLine_count)
  then have some: "kept \<noteq> []"
    by auto
  have lines: "js_split NL p0 = kept"
    using some unfolding p0_def kept_def changed(2) by (rule reducePatch_lines)
  have black: "js_trim p0 \<noteq> []"
    using some by (simp add: p0_def reducePatch_trim changed(2) kept_def)
  have live: "\<not> isBinaryOrLarge f"
    by (simp add: isBinaryOrLarge_def changed)
  have fits: "trimPatchLines p0 (perFileCap k) = p0"
    using headers(2) by (intro trimPatchLines_fits) (simp add: lines count k)
  have step: "file_step k f \<lparr> files = [], totalLines = 0 \<rparr> =
                Continue \<lparr> files = [c], totalLines = int h + 3 \<rparr>"
    using live changed(3) black headers(2) fits
    by (simp add: file_step_def push_file_def Let_def k p0_def [symmetric] lines count c_def)
  have loop: "page_loop k [f] \<lparr> files = [], totalLines = 0 \<rparr> = \<lparr> files = [c], totalLines = int h + 3 \<rparr>"
    by (simp add: step)
  have "listChangedFiles n k w = (Inr \<lparr> files = [c], totalLines = int h + 3 \<rparr>, issued (ListFiles n 1) w)"
    using world by (simp add: listChangedFiles_def pages_loop_Cons loop per_page_def del: page_loop.simps)
  then have run: "fst (listChangedFiles n k w) = Inr \<lparr> files = [c], totalLines = int h + 3 \<rparr>"
    by simp
  have shape: "js_split NL (patch c) = kept"
    by (simp add: c_def lines)
  have scenario: "\<exists>c. fst (listChangedFiles n k w) = Inr \<lparr> files = [c], totalLines = int h + 3 \<rparr>
            \<and> filename c = filename f
            \<and> js_split NL (patch c) = filter keptLine (js_split NL p)
            \<and> length (js_split NL (patch c)) = h + 3
            \<and> length (filter (\<lambda>l. startsWith l ''+'') (js_split NL (patch c))) = 2
            \<and> length (filter (\<lambda>l. startsWith l ''-'') (js_split NL (patch c))) = 1
            \<and> length (filter (\<lambda>l. startsWith l ''@@'') (js_split NL (patch c))) = h"
  proof (intro exI [of _ c] conjI)
    show "fst (listChangedFiles n k w) = Inr \<lparr> files = [c], totalLines = int h + 3 \<rparr>"
      by (rule run)
    show "filename c = filename f"
      by (simp add: c_def)
    show "js_split NL (patch c) = filter keptLine (js_split NL p)"
      by (simp only: shape kept_def)
    show "length (js_split NL (patch c)) = h + 3"
      by (simp only: shape count)
    show "length (filter (\<lambda>l. startsWith l ''+'') (js_split NL (patch c))) = 2"
      by (simp only: shape kept_def filter_kept added)
    show "length (filter (\<lambda>l. startsWith l ''-'') (js_split NL (patch c))) = 1"
      by (simp only: shape kept_def filter_kept removed)
    show "length (filter (\<lambda>l. startsWith l ''@@'') (js_split NL (patch c))) = h"
      by (simp only: shape kept_def filter_kept headers(1))
  qed
  show ?thesis
    using scenario reducePatch_lines [of q] reducePatch_nothing [of q]
    unfolding k_def by (simp add: keptLine_def)
qed

theorem C7_reduction_witness:
  "fst (listChangedFiles 7 default_caps scenario_A_world) =
     Inr \<lparr> files =
             [\<lparr> filename = ''app.py'', status = ''modified'', additions = 2, deletions = 1,
                patch = ''@@ -1,6 +1,7 @@'' @ [NL] @ ''+import hmac'' @ [NL]
                        @ ''+import secrets'' @ [NL] @ ''-import md5'' \<rparr>],
           totalLines = 4 \<rparr>"
  using C7_reduction [where w = scenario_A_world and f = app_py and p = app_py_patch
      and rs = "riskySet_of asciiLowerCase RISKY_EXTS" and lc = asciiLowerCase and h = 1 and n = 7]
  by (simp add: eval_defs scenario_A_world_def app_py_def app_py_patch_def default_caps_def riskySet_default)



text \<open>
  C9.  For a display limit that is not negative, the summary of no findings is the
  empty string; the summary of \<open>n > 0\<close> findings is the heading, the entries of the
  first \<open>min n limit\<close> findings joined by line feeds, and the note
  "...and N more." with \<open>N = n - limit\<close> exactly when \<open>n > limit\<close>.  When the limit
  is positive and no entry holds a line feed, the lines of the summary are the heading,
  one line per shown finding, and the note when there is one.  An entry shows the
  file, the line and the rule of its finding.
\<close>

theorem C9_summary:
  assumes "0 \<le> limit"
  shows "summarizeGitLeaks [] limit = []
    \<and> (fs \<noteq> [] \<longrightarrow>
         summarizeGitLeaks fs limit =
           gitleaks_heading @ [NL] @ js_join [NL] (map finding_entry (take (nat limit) fs))
           @ (if int (length fs) > limit
              then [NL] @ ellipsis @ ''and '' @ string_of_int (int (length fs) - limit) @ '' more.''
              else [])
         \<and> length (map finding_entry (take (nat limit) fs)) = min (length fs) (nat limit))
    \<and> (fs \<noteq> [] \<and> 0 < limit \<and> (\<forall>f \<in> set fs. NL \<notin> set (finding_entry f)) \<longrightarrow>
         js_split NL (summarizeGitLeaks fs limit) =
           gitleaks_heading # map finding_entry (take (nat limit) fs)
           @ (if int (length fs) > limit
              then [ellipsis @ ''and '' @ string_of_int (int (length fs) - limit) @ '' more.'']
              else []))
    \<and> finding_entry f =
         ''- `'' @ finding_file f @ ''` line '' @ finding_line f @ '': **'' @ finding_rule f @ ''**''"
proof -
  define shown where "shown = map finding_entry (take (nat limit) fs)"
  define tailnote where
    "tailnote = ellipsis @ ''and '' @ string_of_int (int (length fs) - limit) @ '' more.''"
  have empty: "summarizeGitLeaks [] limit = []"
    by (simp add: summarizeGitLeaks_def)
  have shape: "summarizeGitLeaks fs limit =
           gitleaks_heading @ [NL] @ js_join [NL] shown
           @ (if int (length fs) > limit then [NL] @ tailnote else [])" if "fs \<noteq> []"
    using that assms by (simp add: summarizeGitLeaks_def js_slice0_def Let_def shown_def tailnote_def)
  have count: "length shown = min (length fs) (nat limit)"
    by (simp add: shown_def)
  have head: "js_split NL gitleaks_heading = [gitleaks_heading]"
    by (rule js_split_single [OF heading_no_NL])
  have tail: "js_split NL tailnote = [tailnote]"
    unfolding tailnote_def by (rule js_split_single [OF more_note_no_NL])
  have lines: "js_split NL (summarizeGitLeaks fs limit) =
           gitleaks_heading # shown @ (if int (length fs) > limit then [tailnote] else [])"
    if "fs \<noteq> []" and "0 < limit" and clean: "\<forall>f \<in> set fs. NL \<notin> set (finding_entry f)"
  proof -
    have ne: "shown \<noteq> []"
      using that by (cases fs) (auto simp: take_Cons' shown_def)
    have cl: "\<And>l. l \<in> set shown \<Longrightarrow> NL \<notin> set l"
      using clean by (auto dest: in_set_takeD simp: shown_def)
    have body: "js_split NL (js_join [NL] shown) = shown"
      by (rule js_split_join [OF ne cl])
    show ?thesis
    proof (cases "int (length fs) > limit")
      case True
      have "summarizeGitLeaks fs limit = gitleaks_heading @ NL # (js_join [NL] shown @ NL # tailnote)"
        using True shape [OF \<open>fs \<noteq> []\<close>] by simp
      then have "js_split NL (summarizeGitLeaks fs limit) =
              js_split NL gitleaks_heading @ js_split NL (js_join [NL] shown) @ js_split NL tailnote"
        by (simp only: js_split_append_sep)
      then show ?thesis
        using True by (simp only: head tail body if_True append_Cons append_Nil)
    next
      case False
      have "summarizeGitLeaks fs limit = gitleaks_heading @ NL # js_join [NL] shown"
        using False shape [OF \<open>fs \<noteq> []\<close>] by simp
      then have "js_split NL (summarizeGitLeaks fs limit) =
              js_split NL gitleaks_heading @ js_split NL (js_join [NL] shown)"
        by (simp only: js_split_append_sep)
      then show ?thesis
        using False by (simp only: head body if_False append_Cons append_Nil append_Nil2)
    qed
  qed
  have entry: "finding_entry f =
         ''- `'' @ finding_file f @ ''` line '' @ finding_line f @ '': **'' @ finding_rule f @ ''**''"
    by (simp add: finding_entry_def)
  show ?thesis
  proof (intro conjI impI)
    show "summarizeGitLeaks [] limit = []" by (rule empty)
  next
    assume "fs \<noteq> []"
    then show "summarizeGitLeaks fs limit =
           gitleaks_heading @ [NL] @ js_join [NL] (map finding_entry (take (nat limit) fs))
           @ (if int (length fs) > limit
              then [NL] @ ellipsis @ ''and '' @ string_of_int (int (length fs) - limit) @ '' more.''
              else [])"
      using shape unfolding shown_def tailnote_def by blast
  next
    show "length (map finding_entry (take (nat limit) fs)) = min (length fs) (nat limit)"
      using count unfolding shown_def .
  next
    assume "fs \<noteq> [] \<and> 0 < limit \<and> (\<forall>f \<in> set fs. NL \<notin> set (finding_entry f))"
    then show "js_split NL (summarizeGitLeaks fs limit) =
           gitleaks_heading # map finding_entry (take (nat limit) fs)
           @ (if int (length fs) > limit
              then [ellipsis @ ''and '' @ string_of_int (int (length fs) - limit) @ '' more.'']
              else [])"
      using lines unfolding shown_def tailnote_def by blast
  next
    show "finding_entry f =
         ''- `'' @ finding_file f @ ''` line '' @ finding_line f @ '': **'' @ finding_rule f @ ''**''"
      by (rule entry)
  qed
qed

theorem C9_summary_witness:
  "js_split NL (summarizeGitLeaks [leak 3, leak 14, leak 25] 2) =
     [gitleaks_heading,
      ''- `config.yml` line 3: **aws-key**'',
      ''- `config.yml` line 14: **aws-key**'',
      ellipsis @ ''and 1 more.'']"
  using C9_summary [of 2 "[leak 3, leak 14, leak 25]", THEN conjunct2, THEN conjunct2,
      THEN conjunct1]
  by (simp add: finding_entry_def finding_file_def finding_line_def finding_rule_def leak_def
      js_or_def string_of_int_def string_of_nat.simps [of "Suc 0"] string_of_nat.simps [of 3]
      string_of_nat.simps [of 14] string_of_nat.simps [of 2] string_of_nat.simps [of 25]
      digit_char_def NL_def)


end
